theory Spec2Isabelle
  imports Main
begin

section \<open>The JavaScript built-ins the component calls\<close>

text \<open>
  Strings are lists of characters and arrays are lists. Numbers that the component
  receives (\<open>maxFiles\<close>, the index given to \<open>removeFile\<close>) are modelled as
  \<open>int\<close>: they may be zero or negative, and the built-ins below spell out what
  \<open>slice\<close> and \<open>splice\<close> do with them. None of these built-ins throws.
\<close>

text \<open>\<open>s.startsWith(p)\<close>.\<close>

fun startsWith :: "string \<Rightarrow> string \<Rightarrow> bool" where
  "startsWith s [] = True"
| "startsWith [] (p # ps) = False"
| "startsWith (c # cs) (p # ps) = (c = p \<and> startsWith cs ps)"

text \<open>\<open>s.includes(p)\<close>: \<open>p\<close> occurs in \<open>s\<close> at some position.\<close>

fun includes_str :: "string \<Rightarrow> string \<Rightarrow> bool" where
  "includes_str [] p = (p = [])"
| "includes_str (c # cs) p = (startsWith (c # cs) p \<or> includes_str cs p)"

text \<open>\<open>s.endsWith(p)\<close>: the last \<open>|p|\<close> characters of \<open>s\<close> are \<open>p\<close>.\<close>

definition endsWith :: "string \<Rightarrow> string \<Rightarrow> bool" where
  "endsWith s p = (length p \<le> length s \<and> drop (length s - length p) s = p)"

text \<open>
  \<open>s.replace(pat, rep)\<close> with a string pattern: only the first occurrence of
  \<open>pat\<close> is replaced. (The replacement used by the component is the empty string,
  so the \<open>$\<close> patterns of a replacement string play no role.)
\<close>

fun replace :: "string \<Rightarrow> string \<Rightarrow> string \<Rightarrow> string" where
  "replace [] pat rep = (if pat = [] then rep else [])"
| "replace (c # cs) pat rep =
     (if startsWith (c # cs) pat then rep @ drop (length pat) (c # cs)
      else c # replace cs pat rep)"

text \<open>
  \<open>xs.slice(start, end)\<close>: a negative bound counts from the end of the array, and
  both bounds are clamped to \<open>[0, length]\<close>.
\<close>

definition slice :: "'a list \<Rightarrow> int \<Rightarrow> int \<Rightarrow> 'a list" where
  "slice xs start fin =
     (let len = int (length xs);
          k = (if start < 0 then max (len + start) 0 else min start len);
          final = (if fin < 0 then max (len + fin) 0 else min fin len)
      in take (nat (max (final - k) 0)) (drop (nat k) xs))"

text \<open>
  \<open>xs.splice(start, deleteCount)\<close>, as the array it leaves behind: a negative
  start counts from the end, the start is clamped to \<open>[0, length]\<close>, and the number
  of deleted elements is clamped to what is left from the start.
\<close>

definition splice :: "'a list \<Rightarrow> int \<Rightarrow> int \<Rightarrow> 'a list" where
  "splice xs start deleteCount =
     (let len = int (length xs);
          k = (if start < 0 then max (len + start) 0 else min start len);
          dc = min (max deleteCount 0) (len - k)
      in take (nat k) xs @ drop (nat (k + dc)) xs)"


section \<open>The component\<close>

text \<open>A \<open>File\<close> as the component reads it: its name, its MIME type and its size.\<close>

record File =
  name :: string
  type :: string
  fsize :: nat

text \<open>The props that the handlers read.\<close>

record FileDropZoneProps =
  acceptedFileTypes :: "string list"
  maxFiles :: int

text \<open>
  The state of a mounted component: the two \<open>useState\<close> cells, the value of the
  hidden file input behind \<open>fileInputRef\<close> (\<open>None\<close> while the ref is not attached)
  and the arguments of every call of the \<open>onFilesSelected\<close> prop so far, oldest
  first. A handler reads the cells as the last render left them and its \<open>setFiles\<close>
  and \<open>setIsDragging\<close> are the cells of the next render, so a handler is a function
  from the state before an event to the state after it.
\<close>

record FileDropZone =
  files :: "File list"
  isDragging :: bool
  fileInputValue :: "string option"
  onFilesSelected :: "File list list"

definition initial :: "string option \<Rightarrow> FileDropZone" where
  "initial inp = \<lparr>files = [], isDragging = False, fileInputValue = inp, onFilesSelected = []\<rparr>"

text \<open>The filter of \<open>handleFileChange\<close> (lines 31 to 39).\<close>

definition validFiles :: "string list \<Rightarrow> File list \<Rightarrow> File list" where
  "validFiles accepted newFiles =
     (if length accepted \<noteq> 0
      then filter (\<lambda>file. list_ex (\<lambda>t. includes_str (type file) (replace t ''*'' '''')
                                       \<or> endsWith (name file) (replace t ''*'' ''''))
                                 accepted)
                  newFiles
      else newFiles)"

definition handleFileChange ::
  "FileDropZoneProps \<Rightarrow> File list option \<Rightarrow> FileDropZone \<Rightarrow> FileDropZone" where
  "handleFileChange props selectedFiles st =
     (case selectedFiles of
        None \<Rightarrow> st
      | Some newFiles \<Rightarrow>
          (let valid = validFiles (acceptedFileTypes props) newFiles;
               updatedFiles =
                 (if maxFiles props > 1
                  then slice (files st @ valid) 0 (maxFiles props)
                  else slice valid 0 (maxFiles props))
           in st\<lparr>files := updatedFiles,
                 onFilesSelected := onFilesSelected st @ [updatedFiles],
                 fileInputValue := map_option (\<lambda>_. '''') (fileInputValue st)\<rparr>))"

definition handleDragOver :: "FileDropZone \<Rightarrow> FileDropZone" where
  "handleDragOver st = st\<lparr>isDragging := True\<rparr>"

definition handleDragLeave :: "FileDropZone \<Rightarrow> FileDropZone" where
  "handleDragLeave st = st\<lparr>isDragging := False\<rparr>"

definition handleDrop :: "FileDropZoneProps \<Rightarrow> File list \<Rightarrow> FileDropZone \<Rightarrow> FileDropZone" where
  "handleDrop props dataTransferFiles st =
     handleFileChange props (Some dataTransferFiles) (st\<lparr>isDragging := False\<rparr>)"

definition removeFile :: "int \<Rightarrow> FileDropZone \<Rightarrow> FileDropZone" where
  "removeFile index st =
     (let newFiles = splice (files st) index 1
      in st\<lparr>files := newFiles, onFilesSelected := onFilesSelected st @ [newFiles]\<rparr>)"

text \<open>
  The events the rendered element listens to, and the handler each one is bound to:
  \<open>onDragOver\<close>, \<open>onDragLeave\<close> and \<open>onDrop\<close> of the drop area, \<open>onChange\<close> of the
  hidden input (whose \<open>files\<close> may be null), \<open>onClick\<close> of the drop area and of the
  select button (they open the file dialog and change no state), and \<open>onClick\<close> of the
  remove button of a listed file.
\<close>

datatype event =
    DragOver
  | DragLeave
  | Drop "File list"
  | Change "File list option"
  | Click
  | RemoveClick int

fun handle :: "FileDropZoneProps \<Rightarrow> event \<Rightarrow> FileDropZone \<Rightarrow> FileDropZone" where
  "handle props DragOver st = handleDragOver st"
| "handle props DragLeave st = handleDragLeave st"
| "handle props (Drop fs) st = handleDrop props fs st"
| "handle props (Change fs) st = handleFileChange props fs st"
| "handle props Click st = st"
| "handle props (RemoveClick i) st = removeFile i st"

text \<open>The drag state of the specification, read off the \<open>isDragging\<close> cell.\<close>

datatype DragState = Idle | Hovering

definition dragState :: "FileDropZone \<Rightarrow> DragState" where
  "dragState st = (if isDragging st then Hovering else Idle)"


section \<open>The operations as the specification words them\<close>

text \<open>A pattern with a trailing \<open>*\<close> stripped.\<close>

definition stripTrailingStar :: "string \<Rightarrow> string" where
  "stripTrailingStar p = (if p \<noteq> [] \<and> last p = CHR ''*'' then butlast p else p)"

text \<open>
  Acceptance as the specification states it: the filter is empty, or some pattern,
  with a trailing \<open>*\<close> stripped, is contained in the MIME type or ends the name.
\<close>

definition spec_accepted :: "string list \<Rightarrow> File \<Rightarrow> bool" where
  "spec_accepted flt d =
     (flt = [] \<or> list_ex (\<lambda>p. includes_str (type d) (stripTrailingStar p)
                               \<or> endsWith (name d) (stripTrailingStar p)) flt)"

datatype error = OutOfRange | InvalidArgument

text \<open>
  Removal as the specification states it: an index outside \<open>[0, |current|)\<close> is an
  \<open>OutOfRange\<close> failure.
\<close>

definition spec_removeAt :: "File list \<Rightarrow> int \<Rightarrow> error + File list" where
  "spec_removeAt current index =
     (if 0 \<le> index \<and> index < int (length current)
      then Inr (take (nat index) current @ drop (Suc (nat index)) current)
      else Inl OutOfRange)"


section \<open>Example files and states\<close>

definition a_png :: File where "a_png = \<lparr>name = ''a.png'', type = ''image/png'', fsize = 2048\<rparr>"
definition b_png :: File where "b_png = \<lparr>name = ''b.png'', type = ''image/png'', fsize = 1024\<rparr>"
definition c_png :: File where "c_png = \<lparr>name = ''c.png'', type = ''image/png'', fsize = 512\<rparr>"
definition y_jpg :: File where "y_jpg = \<lparr>name = ''y.jpg'', type = ''image/jpeg'', fsize = 4096\<rparr>"

definition zone :: "File list \<Rightarrow> FileDropZone" where
  "zone fs = \<lparr>files = fs, isDragging = False, fileInputValue = Some ''C:/fakepath/a.png'',
              onFilesSelected = []\<rparr>"


section \<open>Facts about the built-ins\<close>

lemma startsWith_iff: "startsWith s p \<longleftrightarrow> (\<exists>v. s = p @ v)"
  by (induction s p rule: startsWith.induct) auto

lemma includes_str_iff: "includes_str s p \<longleftrightarrow> (\<exists>u v. s = u @ p @ v)"
proof (induction s)
  case Nil
  show ?case by auto
next
  case (Cons c cs)
  show ?case
  proof
    assume "includes_str (c # cs) p"
    then consider "startsWith (c # cs) p" | "includes_str cs p" by auto
    then show "\<exists>u v. c # cs = u @ p @ v"
    proof cases
      case 1
      then obtain v where "c # cs = p @ v" by (auto simp: startsWith_iff)
      then have "c # cs = [] @ p @ v" by simp
      then show ?thesis by blast
    next
      case 2
      then obtain u v where "cs = u @ p @ v" using Cons.IH by blast
      then have "c # cs = (c # u) @ p @ v" by simp
      then show ?thesis by blast
    qed
  next
    assume "\<exists>u v. c # cs = u @ p @ v"
    then obtain u v where uv: "c # cs = u @ p @ v" by blast
    show "includes_str (c # cs) p"
    proof (cases u)
      case Nil
      then have "startsWith (c # cs) p" using uv by (auto simp: startsWith_iff)
      then show ?thesis by simp
    next
      case (Cons a u')
      then have "cs = u' @ p @ v" using uv by simp
      then have "includes_str cs p" using Cons.IH by blast
      then show ?thesis by simp
    qed
  qed
qed

lemma endsWith_iff: "endsWith s p \<longleftrightarrow> (\<exists>u. s = u @ p)"
proof
  assume "endsWith s p"
  then have "length p \<le> length s" and d: "drop (length s - length p) s = p"
    by (auto simp: endsWith_def)
  have "s = take (length s - length p) s @ drop (length s - length p) s" by simp
  then have "s = take (length s - length p) s @ p" using d by simp
  then show "\<exists>u. s = u @ p" by blast
next
  assume "\<exists>u. s = u @ p"
  then show "endsWith s p" by (auto simp: endsWith_def)
qed

lemma replace_star:
  "replace p ''*'' '''' = takeWhile (\<lambda>c. c \<noteq> CHR ''*'') p @ drop 1 (dropWhile (\<lambda>c. c \<noteq> CHR ''*'') p)"
  by (induction p) auto

lemma slice_0: "0 \<le> m \<Longrightarrow> slice xs 0 m = take (nat m) xs"
  by (auto simp: slice_def Let_def min_def)

lemma splice_inside:
  "0 \<le> i \<Longrightarrow> i < int (length xs) \<Longrightarrow> splice xs i 1 = take (nat i) xs @ drop (Suc (nat i)) xs"
  by (auto simp: splice_def Let_def min_def max_def nat_add_distrib)

lemma splice_beyond: "int (length xs) \<le> i \<Longrightarrow> splice xs i 1 = xs"
  by (auto simp: splice_def Let_def min_def max_def)

lemma splice_negative:
  "i < 0 \<Longrightarrow> splice xs i 1 = take (nat (int (length xs) + i)) xs @ drop (Suc (nat (int (length xs) + i))) xs"
  apply (auto simp: splice_def Let_def min_def max_def nat_add_distrib)
  done

lemma length_slice_0: "0 \<le> m \<Longrightarrow> int (length (slice xs 0 m)) \<le> m"
  by (auto simp: slice_0 min_def)


section \<open>Facts about the handlers\<close>

lemma files_handleFileChange:
  "files (handleFileChange props (Some offered) st) =
     (if maxFiles props > 1
      then slice (files st @ validFiles (acceptedFileTypes props) offered) 0 (maxFiles props)
      else slice (validFiles (acceptedFileTypes props) offered) 0 (maxFiles props))"
  by (simp add: handleFileChange_def Let_def)

lemma calls_handleFileChange:
  "onFilesSelected (handleFileChange props (Some offered) st) =
     onFilesSelected st @ [files (handleFileChange props (Some offered) st)]"
  by (simp add: handleFileChange_def Let_def)

lemma files_removeFile: "files (removeFile i st) = splice (files st) i 1"
  by (simp add: removeFile_def Let_def)

lemma calls_removeFile:
  "onFilesSelected (removeFile i st) = onFilesSelected st @ [files (removeFile i st)]"
  by (simp add: removeFile_def Let_def)

lemma validFiles_filter:
  "validFiles flt offered =
     filter (\<lambda>d. flt = [] \<or> (\<exists>p\<in>set flt. includes_str (type d) (replace p ''*'' '''')
                                          \<or> endsWith (name d) (replace p ''*'' ''''))) offered"
  by (cases flt) (simp_all add: validFiles_def list_ex_iff)


section \<open>Reconciliation of an offered batch\<close>

text \<open>
  C1. Whatever the current selection, the offered batch and the accepted types are, if
  \<open>maxFiles\<close> is at least 1 then the selection that \<open>handleFileChange\<close> stores has at
  most \<open>maxFiles\<close> elements.
\<close>

theorem handleFileChange_length_le_maxFiles:
  assumes "1 \<le> maxFiles props"
  shows "int (length (files (handleFileChange props (Some offered) st))) \<le> maxFiles props"
proof -
  have "0 \<le> maxFiles props" using assms by simp
  then show ?thesis by (simp add: files_handleFileChange length_slice_0)
qed

theorem handleFileChange_length_le_maxFiles_witness:
  "1 \<le> maxFiles \<lparr>acceptedFileTypes = [''.png''], maxFiles = 2\<rparr> \<and>
   int (length (files (handleFileChange \<lparr>acceptedFileTypes = [''.png''], maxFiles = 2\<rparr>
                         (Some [b_png, y_jpg, c_png]) (zone [a_png]))))
     \<le> maxFiles \<lparr>acceptedFileTypes = [''.png''], maxFiles = 2\<rparr>"
proof -
  have h: "1 \<le> maxFiles \<lparr>acceptedFileTypes = [''.png''], maxFiles = 2\<rparr>" by simp
  show ?thesis using h handleFileChange_length_le_maxFiles [OF h] by blast
qed

text \<open>
  In multiple-file mode the component does not store the first \<open>maxFiles\<close> elements
  of the current selection followed by the files that acceptance as the specification
  words it lets through: with the accepted type \<open>*.png\<close>, an empty selection and
  \<open>maxFiles = 3\<close>, a batch holding \<open>a.png\<close> is stored whole, while the specification's
  acceptance rejects the file and leaves nothing to store.
\<close>

theorem handleFileChange_spec_accepted_counterexample:
  "files (handleFileChange \<lparr>acceptedFileTypes = [''*.png''], maxFiles = 3\<rparr>
            (Some [a_png]) (zone []))
     \<noteq> take (nat 3) (files (zone []) @ filter (spec_accepted [''*.png'']) [a_png])
   \<and> files (handleFileChange \<lparr>acceptedFileTypes = [''*.png''], maxFiles = 3\<rparr>
            (Some [a_png]) (zone [])) = [a_png]
   \<and> take (nat 3) (files (zone []) @ filter (spec_accepted [''*.png'']) [a_png]) = []"
  by (simp add: handleFileChange_def validFiles_def slice_def spec_accepted_def
        stripTrailingStar_def endsWith_def a_png_def zone_def Let_def)

text \<open>
  C2, amended. In multiple-file mode (\<open>maxFiles > 1\<close>) the stored selection is the first
  \<open>maxFiles\<close> elements of the current selection followed by the accepted files of the
  batch, in the order of the batch, where a file is accepted iff the list of accepted
  types is empty, or some accepted type, with its first \<open>*\<close> removed wherever it stands
  (everything before the first \<open>*\<close> and everything after it), occurs in the file's type
  or ends the file's name. So the current files come first and are kept, and only as
  many accepted new files as still fit are added, the rest of the batch being dropped.
\<close>

theorem handleFileChange_appends_then_truncates:
  assumes "1 < maxFiles props"
  shows "files (handleFileChange props (Some offered) st) =
           take (nat (maxFiles props))
             (files st @
              filter (\<lambda>d. acceptedFileTypes props = [] \<or>
                          (\<exists>p\<in>set (acceptedFileTypes props).
                             (\<exists>u v. type d =
                                u @ (takeWhile (\<lambda>c. c \<noteq> CHR ''*'') p
                                     @ drop 1 (dropWhile (\<lambda>c. c \<noteq> CHR ''*'') p)) @ v)
                           \<or> (\<exists>u. name d =
                                u @ (takeWhile (\<lambda>c. c \<noteq> CHR ''*'') p
                                     @ drop 1 (dropWhile (\<lambda>c. c \<noteq> CHR ''*'') p)))))
                     offered)
         \<and> files (handleFileChange props (Some offered) st) =
           take (nat (maxFiles props)) (files st)
             @ take (nat (maxFiles props) - length (files st))
                 (filter (\<lambda>d. acceptedFileTypes props = [] \<or>
                          (\<exists>p\<in>set (acceptedFileTypes props).
                             (\<exists>u v. type d =
                                u @ (takeWhile (\<lambda>c. c \<noteq> CHR ''*'') p
                                     @ drop 1 (dropWhile (\<lambda>c. c \<noteq> CHR ''*'') p)) @ v)
                           \<or> (\<exists>u. name d =
                                u @ (takeWhile (\<lambda>c. c \<noteq> CHR ''*'') p
                                     @ drop 1 (dropWhile (\<lambda>c. c \<noteq> CHR ''*'') p)))))
                     offered)"
proof -
  let ?acc = "\<lambda>d. acceptedFileTypes props = [] \<or>
                 (\<exists>p\<in>set (acceptedFileTypes props).
                    (\<exists>u v. type d =
                       u @ (takeWhile (\<lambda>c. c \<noteq> CHR ''*'') p
                            @ drop 1 (dropWhile (\<lambda>c. c \<noteq> CHR ''*'') p)) @ v)
                  \<or> (\<exists>u. name d =
                       u @ (takeWhile (\<lambda>c. c \<noteq> CHR ''*'') p
                            @ drop 1 (dropWhile (\<lambda>c. c \<noteq> CHR ''*'') p))))"
  have v: "validFiles (acceptedFileTypes props) offered = filter ?acc offered"
    by (simp only: validFiles_filter includes_str_iff endsWith_iff replace_star)
  have "0 \<le> maxFiles props" using assms by simp
  then have s: "files (handleFileChange props (Some offered) st) =
                  take (nat (maxFiles props)) (files st @ filter ?acc offered)"
    using assms by (simp only: files_handleFileChange slice_0 v if_True)
  show ?thesis
    by (simp only: s take_append simp_thms)
qed

theorem handleFileChange_appends_then_truncates_witness:
  "1 < maxFiles \<lparr>acceptedFileTypes = [''*.png''], maxFiles = 3\<rparr> \<and>
   files (handleFileChange \<lparr>acceptedFileTypes = [''*.png''], maxFiles = 3\<rparr>
            (Some [y_jpg, b_png, c_png, a_png]) (zone [a_png])) = [a_png, b_png, c_png]"
proof -
  have h: "1 < maxFiles \<lparr>acceptedFileTypes = [''*.png''], maxFiles = 3\<rparr>" by simp
  have f: "filter (\<lambda>d. [''*.png''] = [] \<or>
                       (\<exists>p\<in>set [''*.png''].
                          (\<exists>u v. type d =
                             u @ (takeWhile (\<lambda>c. c \<noteq> CHR ''*'') p
                                  @ drop 1 (dropWhile (\<lambda>c. c \<noteq> CHR ''*'') p)) @ v)
                        \<or> (\<exists>u. name d =
                             u @ (takeWhile (\<lambda>c. c \<noteq> CHR ''*'') p
                                  @ drop 1 (dropWhile (\<lambda>c. c \<noteq> CHR ''*'') p)))))
             [y_jpg, b_png, c_png, a_png] = [b_png, c_png, a_png]"
    unfolding includes_str_iff [symmetric] endsWith_iff [symmetric]
    by (simp add: endsWith_def y_jpg_def b_png_def c_png_def a_png_def)
  show ?thesis
    using h f handleFileChange_appends_then_truncates
                [OF h, of "[y_jpg, b_png, c_png, a_png]" "zone [a_png]"]
    by (simp add: zone_def)
qed

text \<open>
  C4. In single-file mode (\<open>maxFiles = 1\<close>) the selection stored for a batch is the same
  from any two states, whatever they hold: it is the first valid file of the batch, or
  nothing.
\<close>

theorem handleFileChange_single_mode_replaces:
  assumes "maxFiles props = 1"
  shows "files (handleFileChange props (Some offered) st1) =
           files (handleFileChange props (Some offered) st2)
         \<and> files (handleFileChange props (Some offered) st1) =
           take 1 (validFiles (acceptedFileTypes props) offered)"
  using assms by (simp add: files_handleFileChange slice_0)

theorem handleFileChange_single_mode_replaces_witness:
  "maxFiles \<lparr>acceptedFileTypes = [], maxFiles = 1\<rparr> = 1 \<and>
   files (handleFileChange \<lparr>acceptedFileTypes = [], maxFiles = 1\<rparr> (Some [b_png]) (zone [a_png]))
     = files (handleFileChange \<lparr>acceptedFileTypes = [], maxFiles = 1\<rparr> (Some [b_png]) (zone []))
   \<and> files (handleFileChange \<lparr>acceptedFileTypes = [], maxFiles = 1\<rparr> (Some [b_png]) (zone [a_png]))
     = [b_png]"
proof -
  have h: "maxFiles \<lparr>acceptedFileTypes = [], maxFiles = 1\<rparr> = 1" by simp
  show ?thesis
    using h handleFileChange_single_mode_replaces [OF h, of "[b_png]" "zone [a_png]" "zone []"]
    by (simp add: validFiles_def files_handleFileChange slice_def zone_def)
qed

text \<open>
  C9. When the offered file list is null, \<open>handleFileChange\<close> returns at once: the state
  is the same afterwards, so the stored selection is unchanged and \<open>onFilesSelected\<close>
  has not been called.
\<close>

theorem handleFileChange_null_is_noop:
  "handleFileChange props None st = st
   \<and> handle props (Change None) st = st
   \<and> files (handleFileChange props None st) = files st
   \<and> onFilesSelected (handleFileChange props None st) = onFilesSelected st"
  by (simp add: handleFileChange_def)


section \<open>Acceptance of a file\<close>

text \<open>
  With the accepted type \<open>*.png\<close> the component keeps a file named \<open>a.png\<close>, because
  \<open>replace\<close> removes the leading \<open>*\<close> and the name ends with \<open>.png\<close>. Acceptance as
  the specification words it strips a trailing \<open>*\<close> only, finds none, and rejects the
  file: its name does not end with \<open>*.png\<close> and its type does not contain it.
\<close>

theorem validFiles_trailing_star_counterexample:
  "\<not> (validFiles [''*.png''] [a_png] = [a_png] \<longleftrightarrow> spec_accepted [''*.png''] a_png)"
  by (simp add: validFiles_def spec_accepted_def stripTrailingStar_def endsWith_def a_png_def)

text \<open>
  C3, amended. A file of the batch is kept iff the list of accepted types is empty, or
  some accepted type \<open>p\<close>, with its first \<open>*\<close> removed wherever it stands in \<open>p\<close>
  (and every later \<open>*\<close> kept), occurs in the file's type or ends the file's name.
  Occurrence and ending are equalities of character lists: the match is case-sensitive
  and nothing else is normalised. The second part says what \<open>replace\<close> leaves of a
  pattern: everything before the first \<open>*\<close> and everything after it.
\<close>

theorem validFiles_removes_first_star:
  "validFiles flt offered =
     filter (\<lambda>d. flt = [] \<or>
                 (\<exists>p\<in>set flt. (\<exists>u v. type d = u @ replace p ''*'' '''' @ v)
                              \<or> (\<exists>u. name d = u @ replace p ''*'' ''''))) offered
   \<and> replace q ''*'' '''' =
       takeWhile (\<lambda>c. c \<noteq> CHR ''*'') q @ drop 1 (dropWhile (\<lambda>c. c \<noteq> CHR ''*'') q)"
  by (simp only: validFiles_filter includes_str_iff endsWith_iff replace_star simp_thms)

theorem validFiles_removes_first_star_witness:
  "validFiles [''image/*''] [a_png] = [a_png] \<and> replace ''image/*'' ''*'' '''' = ''image/''"
proof -
  have r: "replace ''image/*'' ''*'' '''' = ''image/''" by simp
  have "type a_png = [] @ replace ''image/*'' ''*'' '''' @ ''png''"
    by (simp add: a_png_def)
  then have "\<exists>u v. type a_png = u @ replace ''image/*'' ''*'' '''' @ v" by blast
  then show ?thesis
    using validFiles_removes_first_star [of "[''image/*'']" "[a_png]" "''image/*''"] r by simp
qed


section \<open>Removal\<close>

text \<open>
  C6. For an index within \<open>[0, |files|)\<close>, \<open>removeFile\<close> stores the elements before the
  index followed by the elements after it: the selection is exactly one element
  shorter, and each remaining element stands where it stood, or one position earlier
  when it came after the removed one.
\<close>

theorem removeFile_in_range:
  assumes "0 \<le> i" and "i < int (length (files st))"
  shows "files (removeFile i st) = take (nat i) (files st) @ drop (Suc (nat i)) (files st)
         \<and> Suc (length (files (removeFile i st))) = length (files st)
         \<and> (\<forall>j < length (files (removeFile i st)).
               files (removeFile i st) ! j = (if j < nat i then files st ! j else files st ! Suc j))"
proof -
  let ?xs = "files st"
  have n: "nat i < length ?xs" using assms by simp
  have r: "files (removeFile i st) = take (nat i) ?xs @ drop (Suc (nat i)) ?xs"
    using assms by (simp add: files_removeFile splice_inside)
  have l: "Suc (length (take (nat i) ?xs @ drop (Suc (nat i)) ?xs)) = length ?xs"
    using n by simp
  have e: "\<forall>j < length (take (nat i) ?xs @ drop (Suc (nat i)) ?xs).
             (take (nat i) ?xs @ drop (Suc (nat i)) ?xs) ! j
               = (if j < nat i then ?xs ! j else ?xs ! Suc j)"
    using n by (auto simp: nth_append min_def)
  show ?thesis using r l e by simp
qed

theorem removeFile_in_range_witness:
  "0 \<le> (1::int) \<and> 1 < int (length (files (zone [a_png, b_png, c_png]))) \<and>
   files (removeFile 1 (zone [a_png, b_png, c_png])) = [a_png, c_png] \<and>
   Suc (length (files (removeFile 1 (zone [a_png, b_png, c_png])))) = 3"
proof -
  have h0: "0 \<le> (1::int)" by simp
  have h1: "1 < int (length (files (zone [a_png, b_png, c_png])))" by (simp add: zone_def)
  show ?thesis using h0 h1 removeFile_in_range [OF h0 h1] by (simp add: zone_def)
qed

text \<open>
  C10. For an index at or beyond the length of the selection, \<open>removeFile\<close> stores a
  selection with the same contents and still calls \<open>onFilesSelected\<close>, with that
  selection.
\<close>

theorem removeFile_beyond_end_unchanged:
  assumes "int (length (files st)) \<le> i"
  shows "files (removeFile i st) = files st
         \<and> onFilesSelected (removeFile i st) = onFilesSelected st @ [files st]"
  using assms by (simp add: removeFile_def Let_def splice_beyond)

theorem removeFile_beyond_end_unchanged_witness:
  "int (length (files (zone [a_png, b_png]))) \<le> 2 \<and>
   files (removeFile 2 (zone [a_png, b_png])) = [a_png, b_png] \<and>
   onFilesSelected (removeFile 2 (zone [a_png, b_png])) = [[a_png, b_png]]"
proof -
  have h: "int (length (files (zone [a_png, b_png]))) \<le> 2" by (simp add: zone_def)
  show ?thesis using h removeFile_beyond_end_unchanged [OF h] by (simp add: zone_def)
qed

text \<open>
  Removal as the specification words it fails with \<open>OutOfRange\<close> for index 5 on a
  selection of one file. \<open>removeFile\<close> does not fail there: it stores the same selection
  of one file and hands it to \<open>onFilesSelected\<close>.
\<close>

theorem removeFile_OutOfRange_counterexample:
  "spec_removeAt (files (zone [a_png])) 5 = Inl OutOfRange \<and>
   files (removeFile 5 (zone [a_png])) = [a_png] \<and>
   onFilesSelected (removeFile 5 (zone [a_png])) = [[a_png]]"
  by (simp add: spec_removeAt_def removeFile_def splice_def zone_def Let_def)

text \<open>
  C5, amended. \<open>removeFile\<close> has no failure: for an index outside \<open>[0, |files|)\<close> it
  stores a selection all the same. An index at or beyond the length leaves the selection
  as it is (index 5 on a selection of one file stores that selection of one file), and
  a negative index removes the element at position \<open>max (|files| + index) 0\<close>, if
  there is one.
\<close>

theorem removeFile_out_of_range_returns:
  assumes "\<not> (0 \<le> i \<and> i < int (length (files st)))"
  shows "files (removeFile i st) =
           (if int (length (files st)) \<le> i then files st
            else take (nat (int (length (files st)) + i)) (files st)
                   @ drop (Suc (nat (int (length (files st)) + i))) (files st))"
  using assms by (auto simp: files_removeFile splice_beyond splice_negative)

theorem removeFile_out_of_range_returns_witness:
  "\<not> (0 \<le> (5::int) \<and> 5 < int (length (files (zone [a_png])))) \<and>
   files (removeFile 5 (zone [a_png])) = [a_png]"
proof -
  have h: "\<not> (0 \<le> (5::int) \<and> 5 < int (length (files (zone [a_png]))))"
    by (simp add: zone_def)
  show ?thesis using h removeFile_out_of_range_returns [OF h] by (simp add: zone_def)
qed


section \<open>The callback and the drag state\<close>

text \<open>
  C7. Every \<open>handleFileChange\<close> on a batch (also the one a drop triggers) and every
  \<open>removeFile\<close> makes exactly one further call of \<open>onFilesSelected\<close>, within the same
  handler, and its argument is the whole selection that the handler has stored.
\<close>

theorem onFilesSelected_receives_stored_selection:
  "onFilesSelected (handleFileChange props (Some offered) st)
     = onFilesSelected st @ [files (handleFileChange props (Some offered) st)]
   \<and> onFilesSelected (handleDrop props offered st)
     = onFilesSelected st @ [files (handleDrop props offered st)]
   \<and> onFilesSelected (removeFile i st) = onFilesSelected st @ [files (removeFile i st)]"
  by (simp add: calls_handleFileChange calls_removeFile handleDrop_def)

text \<open>
  C8. The drag state starts as \<open>Idle\<close>. From any state a drag-over leads to
  \<open>Hovering\<close>, a drag-leave leads to \<open>Idle\<close> (in particular from \<open>Hovering\<close>), and a
  drop leads to \<open>Idle\<close> and runs \<open>handleFileChange\<close> on the dropped files; every other
  event leaves the drag state as it is.
\<close>

theorem drag_gate_transitions:
  "dragState (initial inp) = Idle
   \<and> dragState (handle props e st) =
       (case e of DragOver \<Rightarrow> Hovering | DragLeave \<Rightarrow> Idle | Drop fs \<Rightarrow> Idle
        | Change fs \<Rightarrow> dragState st | Click \<Rightarrow> dragState st | RemoveClick k \<Rightarrow> dragState st)
   \<and> handle props (Drop batch) st
       = (handleFileChange props (Some batch) st)\<lparr>isDragging := False\<rparr>
   \<and> files (handle props (Drop batch) st) = files (handleFileChange props (Some batch) st)"
  by (cases e)
     (auto simp: dragState_def initial_def handleDragOver_def handleDragLeave_def
        handleDrop_def handleFileChange_def removeFile_def Let_def split: option.splits)

end
